theory Spec2Isabelle
  imports Main "HOL-Library.Word"
begin

section \<open>Filter expression builder: class atrribute (odata_query_path_composer.h)\<close>

text \<open>
  An \<open>atrribute\<close> object holds one string, its private member \<open>_exp\<close> (the field
  \<open>m_exp\<close> below). Every combinator writes a new text into the receiver and returns
  \<open>*this\<close>. The objects live in a store indexed by address, so that two references to
  one object are told apart from two objects holding equal texts; a combinator takes the
  store and returns the address of the object it returns together with the new store.
\<close>

record atrribute =
  m_exp :: string

type_synonym addr = nat
type_synonym store = "addr \<Rightarrow> atrribute"

text \<open>\<open>evaluate\<close> returns (a reference to) the text held by the object.\<close>

definition evaluate :: "addr \<Rightarrow> store \<Rightarrow> string" where
  "evaluate this h = m_exp (h this)"

text \<open>The assignment \<open>_exp = ostr.str()\<close> that ends every combinator.\<close>

definition assign_exp :: "addr \<Rightarrow> string \<Rightarrow> store \<Rightarrow> store" where
  "assign_exp this s h = h(this := (h this)\<lparr>m_exp := s\<rparr>)"

text \<open>
  A parameter of type \<open>const string_t&\<close> refers either to a string that is no member of
  an \<open>atrribute\<close> (a temporary built from a literal, a variable of the caller) or to the
  \<open>_exp\<close> of an object, which is what \<open>evaluate\<close> hands out.
\<close>

datatype string_ref = Detached string | Exp_of addr

fun deref :: "string_ref \<Rightarrow> store \<Rightarrow> string" where
  "deref (Detached s) h = s"
| "deref (Exp_of a) h = evaluate a h"

text \<open>
  Stream insertion of an \<open>int\<close> (32 bits, two's complement) in the default formatting:
  decimal digits, a leading minus sign for a negative value.
\<close>

type_synonym c_int = "32 word"

definition digit_char :: "nat \<Rightarrow> char" where
  "digit_char d = ''0123456789'' ! d"

function put_nat :: "nat \<Rightarrow> string" where
  "put_nat n = (if n < 10 then [digit_char n] else put_nat (n div 10) @ [digit_char (n mod 10)])"
  by pat_completeness auto
termination
  by (relation "measure (\<lambda>n. n)") auto

declare put_nat.simps [simp del]

definition put_int :: "c_int \<Rightarrow> store \<Rightarrow> string" where
  "put_int i h = (if sint i < 0 then CHR ''-'' # put_nat (nat (- sint i)) else put_nat (nat (sint i)))"

subsection \<open>Logical combinators and the list join\<close>

definition operator_and :: "addr \<Rightarrow> addr \<Rightarrow> store \<Rightarrow> addr \<times> store" where
  "operator_and this e h = (this, assign_exp this (m_exp (h this) @ '' and '' @ evaluate e h) h)"

definition operator_or :: "addr \<Rightarrow> addr \<Rightarrow> store \<Rightarrow> addr \<times> store" where
  "operator_or this e h = (this, assign_exp this (m_exp (h this) @ '' or '' @ evaluate e h) h)"

definition operator_not :: "addr \<Rightarrow> store \<Rightarrow> addr \<times> store" where
  "operator_not this h = (this, assign_exp this (''not '' @ m_exp (h this)) h)"

definition operator_join :: "addr \<Rightarrow> addr \<Rightarrow> store \<Rightarrow> addr \<times> store" where
  "operator_join this e h = (this, assign_exp this (m_exp (h this) @ '','' @ evaluate e h) h)"

subsection \<open>Comparisons\<close>

text \<open>
  The six comparison operators are templates over the operand type \<open>T\<close>; all they ask
  of \<open>T\<close> is its stream insertion, the parameter \<open>put\<close>, which renders the operand as
  it is in the store at the time of the call (\<open>put_int\<close> for an \<open>int\<close>, \<open>deref\<close> for a
  string passed by reference).
\<close>

definition operator_eq :: "('t \<Rightarrow> store \<Rightarrow> string) \<Rightarrow> addr \<Rightarrow> 't \<Rightarrow> store \<Rightarrow> addr \<times> store" where
  "operator_eq put this e h = (this, assign_exp this (m_exp (h this) @ '' eq '' @ put e h) h)"

definition operator_ne :: "('t \<Rightarrow> store \<Rightarrow> string) \<Rightarrow> addr \<Rightarrow> 't \<Rightarrow> store \<Rightarrow> addr \<times> store" where
  "operator_ne put this e h = (this, assign_exp this (m_exp (h this) @ '' ne '' @ put e h) h)"

definition operator_ge :: "('t \<Rightarrow> store \<Rightarrow> string) \<Rightarrow> addr \<Rightarrow> 't \<Rightarrow> store \<Rightarrow> addr \<times> store" where
  "operator_ge put this e h = (this, assign_exp this (m_exp (h this) @ '' ge '' @ put e h) h)"

definition operator_gt :: "('t \<Rightarrow> store \<Rightarrow> string) \<Rightarrow> addr \<Rightarrow> 't \<Rightarrow> store \<Rightarrow> addr \<times> store" where
  "operator_gt put this e h = (this, assign_exp this (m_exp (h this) @ '' gt '' @ put e h) h)"

definition operator_le :: "('t \<Rightarrow> store \<Rightarrow> string) \<Rightarrow> addr \<Rightarrow> 't \<Rightarrow> store \<Rightarrow> addr \<times> store" where
  "operator_le put this e h = (this, assign_exp this (m_exp (h this) @ '' le '' @ put e h) h)"

definition operator_lt :: "('t \<Rightarrow> store \<Rightarrow> string) \<Rightarrow> addr \<Rightarrow> 't \<Rightarrow> store \<Rightarrow> addr \<times> store" where
  "operator_lt put this e h = (this, assign_exp this (m_exp (h this) @ '' lt '' @ put e h) h)"

subsection \<open>String functions\<close>

text \<open>
  The pieces are concatenated in the order the source inserts them into the stream. The
  two literals that hold a single quote, \<open>U(",'")\<close> and \<open>U("')")\<close>, are written with
  the character code 0x27 of the single quote.
\<close>

abbreviation comma_quote :: string where
  "comma_quote \<equiv> [CHR '','', CHR 0x27]"

abbreviation quote_paren :: string where
  "quote_paren \<equiv> [CHR 0x27, CHR '')'']"

definition contains :: "addr \<Rightarrow> string_ref \<Rightarrow> store \<Rightarrow> addr \<times> store" where
  "contains this e h =
     (this, assign_exp this (''contains'' @ ''('' @ m_exp (h this) @ comma_quote @ deref e h @ quote_paren) h)"

definition concat_fn :: "addr \<Rightarrow> string_ref \<Rightarrow> store \<Rightarrow> addr \<times> store" where
  "concat_fn this e h =
     (this, assign_exp this (''concat'' @ ''('' @ m_exp (h this) @ comma_quote @ deref e h @ quote_paren) h)"

definition tolower :: "addr \<Rightarrow> store \<Rightarrow> addr \<times> store" where
  "tolower this h = (this, assign_exp this (''tolower'' @ ''('' @ m_exp (h this) @ quote_paren) h)"

definition toupper :: "addr \<Rightarrow> store \<Rightarrow> addr \<times> store" where
  "toupper this h = (this, assign_exp this (''toupper'' @ ''('' @ m_exp (h this) @ quote_paren) h)"

definition trim :: "addr \<Rightarrow> store \<Rightarrow> addr \<times> store" where
  "trim this h = (this, assign_exp this (''trim'' @ ''('' @ m_exp (h this) @ quote_paren) h)"

definition endswith :: "addr \<Rightarrow> string_ref \<Rightarrow> store \<Rightarrow> addr \<times> store" where
  "endswith this e h =
     (this, assign_exp this (''endswith'' @ ''('' @ m_exp (h this) @ comma_quote @ deref e h @ quote_paren) h)"

definition startswith :: "addr \<Rightarrow> string_ref \<Rightarrow> store \<Rightarrow> addr \<times> store" where
  "startswith this e h =
     (this, assign_exp this (''startswith'' @ ''('' @ m_exp (h this) @ comma_quote @ deref e h @ quote_paren) h)"

text \<open>The two overloads of \<open>substring\<close>: \<open>substring(int index)\<close> and \<open>substring(int index, int length)\<close>.\<close>

definition substring :: "addr \<Rightarrow> c_int \<Rightarrow> store \<Rightarrow> addr \<times> store" where
  "substring this index h =
     (this, assign_exp this (''substring'' @ ''('' @ m_exp (h this) @ comma_quote @ put_int index h @ quote_paren) h)"

definition substring_length :: "addr \<Rightarrow> c_int \<Rightarrow> c_int \<Rightarrow> store \<Rightarrow> addr \<times> store" where
  "substring_length this index len h =
     (this, assign_exp this (''substring'' @ ''('' @ m_exp (h this) @ comma_quote @ put_int index h
        @ comma_quote @ put_int len h @ quote_paren) h)"

section \<open>Query execution coordinator: class odata_service_query (odata_service_query.h)\<close>

text \<open>
  A \<open>pplx::task\<close> is the eventual outcome of a request: a value or an exception.
  \<open>task_from_result\<close> is the task that is already completed with the given value.
\<close>

datatype 'r task = Task_value 'r | Task_exception string

definition task_from_result :: "'r \<Rightarrow> 'r task" where
  "task_from_result r = Task_value r"

text \<open>
  The coordinator holds three shared pointers; a null pointer is \<open>None\<close>. \<open>Executor\<close>
  and \<open>Builder\<close> are template parameters: the coordinator knows the executor through
  its three \<open>execute_\<close> methods and its default-constructible \<open>return_type\<close>, and the
  builder through \<open>get_query_expression\<close>. They are parameters of the model
  (\<open>exec\<close>, \<open>get_expr\<close>, \<open>default_result\<close> for the value \<open>Executor::return_type()\<close>).
\<close>

record ('c, 'e, 'b) odata_service_query =
  m_client_context :: "'c option"
  m_query_executor :: "'e option"
  m_query_builder :: "'b option"

definition execute_query ::
  "('e \<Rightarrow> string \<Rightarrow> 'r task) \<Rightarrow> ('b \<Rightarrow> string) \<Rightarrow> 'r \<Rightarrow> ('c, 'e, 'b) odata_service_query \<Rightarrow> 'r task" where
  "execute_query exec get_expr default_result q =
     (case m_query_executor q of
        Some e \<Rightarrow>
          (case m_query_builder q of
             Some b \<Rightarrow> exec e (get_expr b)
           | None \<Rightarrow> task_from_result default_result)
      | None \<Rightarrow> task_from_result default_result)"

definition execute_paged_query ::
  "('e \<Rightarrow> string \<Rightarrow> 'r task) \<Rightarrow> 'r \<Rightarrow> ('c, 'e, 'b) odata_service_query \<Rightarrow> string \<Rightarrow> 'r task" where
  "execute_paged_query exec default_result q next_link_url =
     (case m_query_executor q of
        Some e \<Rightarrow>
          (case m_query_builder q of
             Some b \<Rightarrow> exec e next_link_url
           | None \<Rightarrow> task_from_result default_result)
      | None \<Rightarrow> task_from_result default_result)"

definition execute_operation_query ::
  "('e \<Rightarrow> string \<Rightarrow> 'p list \<Rightarrow> bool \<Rightarrow> 'r task) \<Rightarrow> ('b \<Rightarrow> string) \<Rightarrow> 'r \<Rightarrow>
     ('c, 'e, 'b) odata_service_query \<Rightarrow> 'p list \<Rightarrow> bool \<Rightarrow> 'r task" where
  "execute_operation_query exec get_expr default_result q parameters is_function =
     (case m_query_executor q of
        Some e \<Rightarrow>
          (case m_query_builder q of
             Some b \<Rightarrow> exec e (get_expr b) parameters is_function
           | None \<Rightarrow> task_from_result default_result)
      | None \<Rightarrow> task_from_result default_result)"

section \<open>Metadata model: edm_model and edm_schema (edm_model.cpp, edm_model.h)\<close>

text \<open>
  Modelled from the spec: the class \<open>edm_entity_container\<close>, whose declaration is not
  among the sources. The spec's EntityContainer is a named collection that carries a
  boolean "is default container" flag; the code reads it through \<open>get_name()\<close> and
  \<open>is_default_container()\<close>, the two fields below. Its entity sets, singletons and
  operation imports are opaque here.
\<close>

record edm_entity_container =
  get_name :: string
  is_default_container :: bool

text \<open>
  Modelled from the spec: the data members of the class \<open>edm_schema\<close>, whose declaration
  (edm_schema.h) is not among the sources. The spec's Schema has a name, an optional
  alias, four name-to-descriptor mappings and a mapping from name to EntityContainer.
  Each mapping is the list of its entries in the order the code's iterator visits them.
\<close>

record ('et, 'ct, 'en, 'op) edm_schema =
  m_namespace :: string
  m_alias :: string
  m_entity_types :: "(string \<times> 'et) list"
  m_complex_types :: "(string \<times> 'ct) list"
  m_enum_types :: "(string \<times> 'en) list"
  m_operation_types :: "(string \<times> 'op) list"
  m_entity_containers :: "(string \<times> edm_entity_container) list"

record ('et, 'ct, 'en, 'op) edm_model =
  m_schemata :: "('et, 'ct, 'en, 'op) edm_schema list"
  m_version :: string

text \<open>
  \<open>edm_schema::find_container\<close>: the two loops over \<open>m_entity_containers\<close>, one for the
  empty name (the first container flagged default) and one for any other name (the first
  container whose own name equals it), and \<open>nullptr\<close> when the loop ends.
\<close>

fun first_default_container :: "(string \<times> edm_entity_container) list \<Rightarrow> edm_entity_container option" where
  "first_default_container [] = None"
| "first_default_container (ent # rest) =
     (if is_default_container (snd ent) then Some (snd ent) else first_default_container rest)"

fun first_container_named :: "string \<Rightarrow> (string \<times> edm_entity_container) list \<Rightarrow> edm_entity_container option" where
  "first_container_named name [] = None"
| "first_container_named name (ent # rest) =
     (if get_name (snd ent) = name then Some (snd ent) else first_container_named name rest)"

definition schema_find_container ::
  "('et, 'ct, 'en, 'op) edm_schema \<Rightarrow> string \<Rightarrow> edm_entity_container option" where
  "schema_find_container sc name =
     (if name = [] then first_default_container (m_entity_containers sc)
      else first_container_named name (m_entity_containers sc))"

text \<open>
  The loop shared by the five lookups of \<open>edm_model\<close>: ask each schema in the order of
  \<open>m_schemata\<close>, return the first non-null answer, \<open>nullptr\<close> when no schema answers.
\<close>

fun first_found :: "('s \<Rightarrow> 'd option) \<Rightarrow> 's list \<Rightarrow> 'd option" where
  "first_found look [] = None"
| "first_found look (sc # rest) =
     (case look sc of Some d \<Rightarrow> Some d | None \<Rightarrow> first_found look rest)"

text \<open>
  The schema's own lookups \<open>edm_schema::find_entity_type\<close>, \<open>find_complex_type\<close>,
  \<open>find_enum_type\<close> and \<open>find_operation_type\<close> are defined in a file that is not
  among the sources; each is a parameter of the lookup of the model that calls it.
\<close>

definition find_entity_type ::
  "(('et, 'ct, 'en, 'op) edm_schema \<Rightarrow> string \<Rightarrow> 'et option) \<Rightarrow>
     ('et, 'ct, 'en, 'op) edm_model \<Rightarrow> string \<Rightarrow> 'et option" where
  "find_entity_type schema_find_entity_type m name =
     first_found (\<lambda>sc. schema_find_entity_type sc name) (m_schemata m)"

definition find_complex_type ::
  "(('et, 'ct, 'en, 'op) edm_schema \<Rightarrow> string \<Rightarrow> 'ct option) \<Rightarrow>
     ('et, 'ct, 'en, 'op) edm_model \<Rightarrow> string \<Rightarrow> 'ct option" where
  "find_complex_type schema_find_complex_type m name =
     first_found (\<lambda>sc. schema_find_complex_type sc name) (m_schemata m)"

definition find_enum_type ::
  "(('et, 'ct, 'en, 'op) edm_schema \<Rightarrow> string \<Rightarrow> 'en option) \<Rightarrow>
     ('et, 'ct, 'en, 'op) edm_model \<Rightarrow> string \<Rightarrow> 'en option" where
  "find_enum_type schema_find_enum_type m name =
     first_found (\<lambda>sc. schema_find_enum_type sc name) (m_schemata m)"

definition find_operation_type ::
  "(('et, 'ct, 'en, 'op) edm_schema \<Rightarrow> string \<Rightarrow> 'op option) \<Rightarrow>
     ('et, 'ct, 'en, 'op) edm_model \<Rightarrow> string \<Rightarrow> 'op option" where
  "find_operation_type schema_find_operation_type m name =
     first_found (\<lambda>sc. schema_find_operation_type sc name) (m_schemata m)"

definition find_container :: "('et, 'ct, 'en, 'op) edm_model \<Rightarrow> string \<Rightarrow> edm_entity_container option" where
  "find_container m name = first_found (\<lambda>sc. schema_find_container sc name) (m_schemata m)"

text \<open>All containers of the model, schema by schema, in the order the lookups visit them.\<close>

definition all_containers :: "('et, 'ct, 'en, 'op) edm_model \<Rightarrow> edm_entity_container list" where
  "all_containers m = concat (map (\<lambda>sc. map snd (m_entity_containers sc)) (m_schemata m))"

subsection \<open>The lookup the spec describes\<close>

text \<open>
  The spec's words for a lookup by qualified or unqualified name, over any of a schema's
  tables: first an exact match of the name against \<open>schema_name.local_name\<close> and against
  \<open>alias.local_name\<close> across all schemas; if that fails and the name contains no
  namespace separator, the first local-name match in schema-registration order. This
  definition follows the spec, not the code; the lookups above are compared with it.
\<close>

definition qualified_match :: "string \<Rightarrow> string \<Rightarrow> string \<Rightarrow> string \<Rightarrow> bool" where
  "qualified_match ns alias local_name name =
     (name = ns @ ''.'' @ local_name \<or> name = alias @ ''.'' @ local_name)"

fun first_entry :: "(string \<Rightarrow> bool) \<Rightarrow> (string \<times> 'd) list \<Rightarrow> 'd option" where
  "first_entry accept [] = None"
| "first_entry accept (ent # rest) = (if accept (fst ent) then Some (snd ent) else first_entry accept rest)"

definition spec_lookup ::
  "('s \<Rightarrow> string) \<Rightarrow> ('s \<Rightarrow> string) \<Rightarrow> ('s \<Rightarrow> (string \<times> 'd) list) \<Rightarrow> 's list \<Rightarrow> string \<Rightarrow> 'd option" where
  "spec_lookup ns_of alias_of table_of schemata name =
     (case first_found (\<lambda>sc. first_entry (\<lambda>k. qualified_match (ns_of sc) (alias_of sc) k name) (table_of sc)) schemata of
        Some d \<Rightarrow> Some d
      | None \<Rightarrow>
          if CHR ''.'' \<in> set name then None
          else first_found (\<lambda>sc. first_entry (\<lambda>k. k = name) (table_of sc)) schemata)"

text \<open>The table of a schema's containers under their own names.\<close>

definition containers_by_name ::
  "('et, 'ct, 'en, 'op) edm_schema \<Rightarrow> (string \<times> edm_entity_container) list" where
  "containers_by_name sc = map (\<lambda>ent. (get_name (snd ent), snd ent)) (m_entity_containers sc)"

section \<open>Literal codec: split_string (exercised by common_utility_test.cpp)\<close>

text \<open>
  Modelled from the spec: \<open>split_string\<close>, the spec's \<open>split(s, delimiter)\<close>, which is
  defined in the utility source that is not among the sources; only its tests are. The
  spec: split \<open>s\<close> on every non-overlapping occurrence of the delimiter, scanning from
  the left and advancing by the delimiter's length per match, keeping empty segments; an
  empty delimiter or an empty \<open>s\<close> gives the single element \<open>s\<close>.

  \<open>split_from delim seg rest\<close> scans \<open>rest\<close>; \<open>seg\<close> is the segment read since the
  last match.
\<close>

function split_from :: "string \<Rightarrow> string \<Rightarrow> string \<Rightarrow> string list" where
  "split_from delim seg [] = [seg]"
| "split_from delim seg (c # cs) =
     (if delim \<noteq> [] \<and> take (length delim) (c # cs) = delim
      then seg # split_from delim [] (drop (length delim) (c # cs))
      else split_from delim (seg @ [c]) cs)"
  by pat_completeness auto
termination
  by (relation "measure (\<lambda>(delim, seg, rest). length rest)") auto

definition split_string :: "string \<Rightarrow> string \<Rightarrow> string list" where
  "split_string s delim = (if delim = [] \<or> s = [] then [s] else split_from delim [] s)"

text \<open>The delimiter occurs in \<open>s\<close>: some position of \<open>s\<close> starts a copy of it.\<close>

fun occurs_in :: "string \<Rightarrow> string \<Rightarrow> bool" where
  "occurs_in delim [] = (delim = [])"
| "occurs_in delim (c # cs) = (take (length delim) (c # cs) = delim \<or> occurs_in delim cs)"

section \<open>Notions used in the statements\<close>

text \<open>
  What a binary combinator may do to the store: it returns the receiver, and every object
  other than the receiver is as it was.
\<close>

definition mutates_only_receiver :: "addr \<Rightarrow> store \<Rightarrow> addr \<times> store \<Rightarrow> bool" where
  "mutates_only_receiver this h r = (fst r = this \<and> (\<forall>p. p \<noteq> this \<longrightarrow> snd r p = h p))"

section \<open>Concrete stores and models used in the evaluations\<close>

text \<open>The store whose object at address \<open>p\<close> holds the \<open>p\<close>-th text of the list.\<close>

definition store_of :: "string list \<Rightarrow> store" where
  "store_of texts p = \<lparr>m_exp = (if p < length texts then texts ! p else [])\<rparr>"

text \<open>
  A model of two schemata. The container of the first schema has the name \<open>B.C\<close>, which
  is also the qualified name of the second schema's container.
\<close>

definition container_B_C :: edm_entity_container where
  "container_B_C = \<lparr>get_name = ''B.C'', is_default_container = False\<rparr>"

definition container_C :: edm_entity_container where
  "container_C = \<lparr>get_name = ''C'', is_default_container = True\<rparr>"

definition schema_A :: "(nat, nat, nat, nat) edm_schema" where
  "schema_A = \<lparr>m_namespace = ''A'', m_alias = ''a'', m_entity_types = [(''Person'', 1)],
     m_complex_types = [], m_enum_types = [], m_operation_types = [],
     m_entity_containers = [(''B.C'', container_B_C)]\<rparr>"

definition schema_B :: "(nat, nat, nat, nat) edm_schema" where
  "schema_B = \<lparr>m_namespace = ''B'', m_alias = ''b'', m_entity_types = [(''Person'', 2)],
     m_complex_types = [(''Address'', 3)], m_enum_types = [(''Color'', 4)], m_operation_types = [(''Reset'', 5)],
     m_entity_containers = [(''C'', container_C)]\<rparr>"

definition two_schema_model :: "(nat, nat, nat, nat) edm_model" where
  "two_schema_model = \<lparr>m_schemata = [schema_A, schema_B], m_version = ''4.0''\<rparr>"

text \<open>A stand-in for the schema's own lookups in the evaluations: the local name only.\<close>

definition local_entity_type :: "(nat, nat, nat, nat) edm_schema \<Rightarrow> string \<Rightarrow> nat option" where
  "local_entity_type sc name = first_entry (\<lambda>k. k = name) (m_entity_types sc)"

definition local_complex_type :: "(nat, nat, nat, nat) edm_schema \<Rightarrow> string \<Rightarrow> nat option" where
  "local_complex_type sc name = first_entry (\<lambda>k. k = name) (m_complex_types sc)"

definition local_enum_type :: "(nat, nat, nat, nat) edm_schema \<Rightarrow> string \<Rightarrow> nat option" where
  "local_enum_type sc name = first_entry (\<lambda>k. k = name) (m_enum_types sc)"

definition local_operation_type :: "(nat, nat, nat, nat) edm_schema \<Rightarrow> string \<Rightarrow> nat option" where
  "local_operation_type sc name = first_entry (\<lambda>k. k = name) (m_operation_types sc)"

text \<open>
  A model whose container names are plain identifiers: the schema \<open>M\<close> with the container
  \<open>Main\<close>, and the schema \<open>B\<close> above with its container \<open>C\<close>.
\<close>

definition container_Main :: edm_entity_container where
  "container_Main = \<lparr>get_name = ''Main'', is_default_container = False\<rparr>"

definition schema_M :: "(nat, nat, nat, nat) edm_schema" where
  "schema_M = \<lparr>m_namespace = ''M'', m_alias = ''m'', m_entity_types = [],
     m_complex_types = [], m_enum_types = [], m_operation_types = [],
     m_entity_containers = [(''Main'', container_Main)]\<rparr>"

definition plain_model :: "(nat, nat, nat, nat) edm_model" where
  "plain_model = \<lparr>m_schemata = [schema_M, schema_B], m_version = ''4.0''\<rparr>"


text \<open>
  An executor whose every request fails, a coordinator that has a builder and no
  executor, and one that has the failing executor and no builder.
\<close>

definition failing_executor :: "unit \<Rightarrow> string \<Rightarrow> nat task" where
  "failing_executor e request = Task_exception ''transport failure''"

definition failing_operation_executor :: "unit \<Rightarrow> string \<Rightarrow> nat list \<Rightarrow> bool \<Rightarrow> nat task" where
  "failing_operation_executor e request ps f = Task_exception ''transport failure''"

definition builder_expression :: "string \<Rightarrow> string" where
  "builder_expression b = b"

definition no_executor_query :: "(unit, unit, string) odata_service_query" where
  "no_executor_query = \<lparr>m_client_context = Some (), m_query_executor = None, m_query_builder = Some ''People''\<rparr>"

definition no_builder_query :: "(unit, unit, string) odata_service_query" where
  "no_builder_query = \<lparr>m_client_context = Some (), m_query_executor = Some (), m_query_builder = None\<rparr>"

section \<open>Properties of the filter expression builder\<close>

lemma put_int_5: "put_int 5 h = ''5''"
  by (simp add: put_int_def put_nat.simps digit_char_def)

subsection \<open>Rendering of the string functions\<close>

text \<open>
  Claim C1: for every accumulated expression \<open>a\<close>, \<open>tolower\<close>, \<open>toupper\<close> and \<open>trim\<close>
  render \<open>tolower(a)\<close>, \<open>toupper(a)\<close> and \<open>trim(a)\<close> with no extra characters. The
  three methods close the call with the literal \<open>U("')")\<close> of the two-argument functions:
  for every \<open>a\<close> the text they produce is \<open>name(a')\<close>, a single quote before the closing
  parenthesis, and so never the text the claim gives; on \<open>Name\<close> the result is
  \<open>tolower(Name')\<close>.
\<close>

theorem unary_functions_render_stray_quote:
  "evaluate this (snd (tolower this h)) = ''tolower('' @ evaluate this h @ ''')''
   \<and> evaluate this (snd (toupper this h)) = ''toupper('' @ evaluate this h @ ''')''
   \<and> evaluate this (snd (trim this h)) = ''trim('' @ evaluate this h @ ''')''
   \<and> evaluate this (snd (tolower this h)) \<noteq> ''tolower('' @ evaluate this h @ '')''
   \<and> evaluate this (snd (toupper this h)) \<noteq> ''toupper('' @ evaluate this h @ '')''
   \<and> evaluate this (snd (trim this h)) \<noteq> ''trim('' @ evaluate this h @ '')''
   \<and> evaluate 0 (snd (tolower 0 (store_of [''Name'']))) = ''tolower(Name')''"
  by (simp add: tolower_def toupper_def trim_def evaluate_def assign_exp_def store_of_def)

text \<open>
  Claim C2: \<open>substring(i)\<close> renders \<open>substring(a,'i')\<close> and \<open>substring(i, len)\<close> renders
  \<open>substring(a,'i','len')\<close>, each integer in single quotes of its own. The one-argument
  overload does. The two-argument overload inserts \<open>U(",'")\<close> after the index where the
  closing quote of the index belongs, so the index is never closed: it renders
  \<open>substring(a,'i,'len')\<close>, on \<open>Name\<close>, 1 and 2 the text \<open>substring(Name,'1,'2')\<close>.
\<close>

theorem substring_length_drops_quote:
  "evaluate this (snd (substring this i h)) = ''substring('' @ evaluate this h @ '','' @ [CHR 0x27] @ put_int i h @ [CHR 0x27] @ '')''
   \<and> evaluate this (snd (substring_length this i len h))
       = ''substring('' @ evaluate this h @ '','' @ [CHR 0x27] @ put_int i h @ '','' @ [CHR 0x27] @ put_int len h @ [CHR 0x27] @ '')''
   \<and> evaluate this (snd (substring_length this i len h))
       \<noteq> ''substring('' @ evaluate this h @ '','' @ [CHR 0x27] @ put_int i h @ [CHR 0x27] @ '','' @ [CHR 0x27] @ put_int len h @ [CHR 0x27] @ '')''
   \<and> evaluate 0 (snd (substring_length 0 1 2 (store_of [''Name'']))) = ''substring(Name,'1,'2')''"
proof -
  have p1: "put_int 1 h' = ''1''" for h'
    by (simp add: put_int_def put_nat.simps digit_char_def)
  have p2: "put_int 2 h' = ''2''" for h'
    by (simp add: put_int_def put_nat.simps digit_char_def)
  show ?thesis
    by (simp add: substring_def substring_length_def evaluate_def assign_exp_def store_of_def p1 p2)
qed

text \<open>
  Claim C3: from the attribute texts \<open>a\<close> and \<open>b\<close>, the chain
  \<open>a.eq(5).and(b.startswith("x"))\<close> produces exactly \<open>a eq 5 and startswith(b,'x')\<close>.
  The two operands of \<open>&&\<close> are evaluated before it is called, in either order; both
  orders give the same text in the object the chain returns.
\<close>

theorem filter_chain_renders:
  "(case operator_eq put_int 0 5 (store_of [''a'', ''b'']) of (a, h1) \<Rightarrow>
      case startswith 1 (Detached ''x'') h1 of (b, h2) \<Rightarrow>
        case operator_and a b h2 of (r, h3) \<Rightarrow> evaluate r h3) = ''a eq 5 and startswith(b,'x')''
   \<and> (case startswith 1 (Detached ''x'') (store_of [''a'', ''b'']) of (b, h1) \<Rightarrow>
      case operator_eq put_int 0 5 h1 of (a, h2) \<Rightarrow>
        case operator_and a b h2 of (r, h3) \<Rightarrow> evaluate r h3) = ''a eq 5 and startswith(b,'x')''"
  by (simp add: operator_eq_def startswith_def operator_and_def evaluate_def assign_exp_def store_of_def put_int_5)

subsection \<open>Frame of the binary combinators\<close>

lemma assign_exp_frame: "mutates_only_receiver this h (this, assign_exp this s h)"
  by (simp add: mutates_only_receiver_def assign_exp_def)

lemma evaluate_assign_exp_other: "e \<noteq> this \<Longrightarrow> evaluate e (assign_exp this s h) = evaluate e h"
  by (simp add: evaluate_def assign_exp_def)

lemma deref_assign_exp_other: "r \<noteq> Exp_of this \<Longrightarrow> deref r (assign_exp this s h) = deref r h"
  by (cases r) (simp_all add: evaluate_assign_exp_other)

lemma logical_frame:
  "mutates_only_receiver this h (operator_and this e h)
   \<and> mutates_only_receiver this h (operator_or this e h)
   \<and> mutates_only_receiver this h (operator_join this e h)"
  by (simp add: operator_and_def operator_or_def operator_join_def assign_exp_frame)

lemma logical_operand:
  "e \<noteq> this \<Longrightarrow>
     evaluate e (snd (operator_and this e h)) = evaluate e h
   \<and> evaluate e (snd (operator_or this e h)) = evaluate e h
   \<and> evaluate e (snd (operator_join this e h)) = evaluate e h"
  by (simp add: operator_and_def operator_or_def operator_join_def evaluate_assign_exp_other)

lemma comparison_frame:
  "mutates_only_receiver this h (operator_eq put this x h)
   \<and> mutates_only_receiver this h (operator_ne put this x h)
   \<and> mutates_only_receiver this h (operator_ge put this x h)
   \<and> mutates_only_receiver this h (operator_gt put this x h)
   \<and> mutates_only_receiver this h (operator_le put this x h)
   \<and> mutates_only_receiver this h (operator_lt put this x h)"
  by (simp add: operator_eq_def operator_ne_def operator_ge_def operator_gt_def operator_le_def
      operator_lt_def assign_exp_frame)

lemma comparison_operand:
  "r \<noteq> Exp_of this \<Longrightarrow>
     deref r (snd (operator_eq deref this r h)) = deref r h
   \<and> deref r (snd (operator_ne deref this r h)) = deref r h
   \<and> deref r (snd (operator_ge deref this r h)) = deref r h
   \<and> deref r (snd (operator_gt deref this r h)) = deref r h
   \<and> deref r (snd (operator_le deref this r h)) = deref r h
   \<and> deref r (snd (operator_lt deref this r h)) = deref r h"
  by (simp add: operator_eq_def operator_ne_def operator_ge_def operator_gt_def operator_le_def
      operator_lt_def deref_assign_exp_other)

lemma function_frame:
  "mutates_only_receiver this h (contains this r h)
   \<and> mutates_only_receiver this h (concat_fn this r h)
   \<and> mutates_only_receiver this h (startswith this r h)
   \<and> mutates_only_receiver this h (endswith this r h)"
  by (simp add: contains_def concat_fn_def startswith_def endswith_def assign_exp_frame)

lemma function_operand:
  "r \<noteq> Exp_of this \<Longrightarrow>
     deref r (snd (contains this r h)) = deref r h
   \<and> deref r (snd (concat_fn this r h)) = deref r h
   \<and> deref r (snd (startswith this r h)) = deref r h
   \<and> deref r (snd (endswith this r h)) = deref r h"
  by (simp add: contains_def concat_fn_def startswith_def endswith_def deref_assign_exp_other)

text \<open>
  Claim C10, as amended: every binary combinator (\<open>&&\<close>, \<open>||\<close>, the join \<open>|\<close>, the six
  comparisons, \<open>contains\<close>, \<open>concat\<close>, \<open>startswith\<close>, \<open>endswith\<close>) returns the receiver
  and changes no object but the receiver; the text of its right-hand operand is unchanged
  whenever the operand is not the receiver itself (for a string operand: not a reference
  to the receiver's own text). So after \<open>a && b\<close> with \<open>b\<close> another object than \<open>a\<close>,
  \<open>b\<close> holds what it held before.
\<close>

theorem binary_combinators_frame:
  "(mutates_only_receiver this h (operator_and this e h)
    \<and> mutates_only_receiver this h (operator_or this e h)
    \<and> mutates_only_receiver this h (operator_join this e h)
    \<and> mutates_only_receiver this h (operator_eq put this x h)
    \<and> mutates_only_receiver this h (operator_ne put this x h)
    \<and> mutates_only_receiver this h (operator_ge put this x h)
    \<and> mutates_only_receiver this h (operator_gt put this x h)
    \<and> mutates_only_receiver this h (operator_le put this x h)
    \<and> mutates_only_receiver this h (operator_lt put this x h)
    \<and> mutates_only_receiver this h (contains this r h)
    \<and> mutates_only_receiver this h (concat_fn this r h)
    \<and> mutates_only_receiver this h (startswith this r h)
    \<and> mutates_only_receiver this h (endswith this r h))
   \<and> (e \<noteq> this \<longrightarrow>
        evaluate e (snd (operator_and this e h)) = evaluate e h
      \<and> evaluate e (snd (operator_or this e h)) = evaluate e h
      \<and> evaluate e (snd (operator_join this e h)) = evaluate e h)
   \<and> (r \<noteq> Exp_of this \<longrightarrow>
        deref r (snd (operator_eq deref this r h)) = deref r h
      \<and> deref r (snd (operator_ne deref this r h)) = deref r h
      \<and> deref r (snd (operator_ge deref this r h)) = deref r h
      \<and> deref r (snd (operator_gt deref this r h)) = deref r h
      \<and> deref r (snd (operator_le deref this r h)) = deref r h
      \<and> deref r (snd (operator_lt deref this r h)) = deref r h
      \<and> deref r (snd (contains this r h)) = deref r h
      \<and> deref r (snd (concat_fn this r h)) = deref r h
      \<and> deref r (snd (startswith this r h)) = deref r h
      \<and> deref r (snd (endswith this r h)) = deref r h)"
  using logical_frame [of this h e] comparison_frame [of this h put x] function_frame [of this h r]
    logical_operand [of e this h] comparison_operand [of r this h] function_operand [of r this h]
  by blast

theorem binary_combinators_frame_witness:
  "mutates_only_receiver 0 (store_of [''a'', ''b'']) (operator_and 0 1 (store_of [''a'', ''b'']))
   \<and> evaluate 1 (snd (operator_and 0 1 (store_of [''a'', ''b'']))) = ''b''
   \<and> evaluate 0 (snd (operator_and 0 1 (store_of [''a'', ''b'']))) = ''a and b''
   \<and> deref (Exp_of 1) (snd (contains 0 (Exp_of 1) (store_of [''a'', ''b'']))) = ''b''
   \<and> evaluate 0 (snd (contains 0 (Exp_of 1) (store_of [''a'', ''b'']))) = ''contains(a,'b')''"
proof -
  have ne: "(1::nat) \<noteq> 0" and nr: "Exp_of 1 \<noteq> Exp_of 0"
    by simp_all
  have ev: "evaluate 1 (store_of [''a'', ''b'']) = ''b''"
    by (simp add: evaluate_def store_of_def)
  have a0: "evaluate 0 (snd (operator_and 0 1 (store_of [''a'', ''b'']))) = ''a and b''"
    by (simp add: operator_and_def evaluate_def assign_exp_def store_of_def)
  have c0: "evaluate 0 (snd (contains 0 (Exp_of 1) (store_of [''a'', ''b'']))) = ''contains(a,'b')''"
    by (simp add: contains_def evaluate_def assign_exp_def store_of_def)
  from binary_combinators_frame [of 0 "store_of [''a'', ''b'']" 1 deref "Exp_of 1" "Exp_of 1"] ne nr ev a0 c0
  show ?thesis by simp
qed

text \<open>
  Claim C10 as stated, for every right-hand operand, fails when the operand is the
  receiver: \<open>a && a\<close> returns \<open>a\<close>, whose text, the operand's, is \<open>a and a\<close> after the
  call and was \<open>a\<close> before it.
\<close>

theorem operand_aliasing_receiver_counterexample:
  "evaluate 0 (store_of [''a'']) = ''a''
   \<and> fst (operator_and 0 0 (store_of [''a''])) = 0
   \<and> evaluate 0 (snd (operator_and 0 0 (store_of [''a'']))) = ''a and a''
   \<and> evaluate 0 (snd (operator_and 0 0 (store_of [''a'']))) \<noteq> evaluate 0 (store_of [''a''])"
  by (simp add: operator_and_def evaluate_def assign_exp_def store_of_def)

section \<open>Properties of the query execution coordinator\<close>

text \<open>
  Claim C4: whenever the executor or the builder is absent (null), each of
  \<open>execute_query\<close>, \<open>execute_paged_query\<close> and \<open>execute_operation_query\<close> resolves at
  once with the default-constructed result, a completed task and never a failure; the
  executor is not consulted.
\<close>

theorem missing_collaborator_resolves_default:
  assumes "m_query_executor q = None \<or> m_query_builder q = None"
  shows "execute_query exec_q get_expr d q = task_from_result d
       \<and> execute_paged_query exec_p d q next_link_url = task_from_result d
       \<and> execute_operation_query exec_o get_expr d q parameters is_function = task_from_result d
       \<and> task_from_result d \<noteq> Task_exception msg"
  using assms
  by (auto simp: execute_query_def execute_paged_query_def execute_operation_query_def
      task_from_result_def split: option.splits)

theorem missing_collaborator_resolves_default_witness:
  "m_query_executor no_executor_query = None
   \<and> execute_query failing_executor builder_expression 0 no_executor_query = Task_value 0
   \<and> execute_paged_query failing_executor 0 no_executor_query ''People?$skiptoken=8'' = Task_value 0
   \<and> execute_operation_query failing_operation_executor builder_expression 0 no_executor_query [] True = Task_value 0
   \<and> m_query_builder no_builder_query = None
   \<and> execute_query failing_executor builder_expression 0 no_builder_query = Task_value 0
   \<and> execute_paged_query failing_executor 0 no_builder_query ''People?$skiptoken=8'' = Task_value 0
   \<and> execute_operation_query failing_operation_executor builder_expression 0 no_builder_query [] True = Task_value 0"
proof -
  have e: "m_query_executor no_executor_query = None"
    by (simp add: no_executor_query_def)
  have b: "m_query_builder no_builder_query = None"
    by (simp add: no_builder_query_def)
  from e have he: "m_query_executor no_executor_query = None \<or> m_query_builder no_executor_query = None"
    by simp
  from b have hb: "m_query_executor no_builder_query = None \<or> m_query_builder no_builder_query = None"
    by simp
  from missing_collaborator_resolves_default [OF he, of failing_executor builder_expression 0
      failing_executor "''People?$skiptoken=8''" failing_operation_executor "[]" True]
    missing_collaborator_resolves_default [OF hb, of failing_executor builder_expression 0
      failing_executor "''People?$skiptoken=8''" failing_operation_executor "[]" True]
  show ?thesis using e b by (simp add: task_from_result_def)
qed

section \<open>Properties of the metadata model\<close>

subsection \<open>The scan over the schemata\<close>

lemma first_found_None_iff: "first_found look scs = None \<longleftrightarrow> (\<forall>sc \<in> set scs. look sc = None)"
  by (induction scs) (auto split: option.splits)

lemma first_default_container_filter:
  "first_default_container ents =
     (case filter is_default_container (map snd ents) of [] \<Rightarrow> None | c # _ \<Rightarrow> Some c)"
  by (induction ents) simp_all

lemma first_container_named_None_iff:
  "first_container_named name ents = None \<longleftrightarrow> (\<forall>ent \<in> set ents. get_name (snd ent) \<noteq> name)"
  by (induction ents) simp_all

lemma first_default_container_None_iff:
  "first_default_container ents = None \<longleftrightarrow> (\<forall>ent \<in> set ents. \<not> is_default_container (snd ent))"
  by (induction ents) simp_all

lemma find_default_filter:
  "first_found (\<lambda>sc. first_default_container (m_entity_containers sc)) scs =
     (case filter is_default_container (concat (map (\<lambda>sc. map snd (m_entity_containers sc)) scs)) of
        [] \<Rightarrow> None | c # _ \<Rightarrow> Some c)"
proof (induction scs)
  case Nil
  show ?case by simp
next
  case (Cons sc scs)
  show ?case
  proof (cases "filter is_default_container (map snd (m_entity_containers sc))")
    case Nil
    with Cons show ?thesis
      by (simp add: first_default_container_filter)
  next
    case (Cons c cs)
    then show ?thesis
      by (simp add: first_default_container_filter)
  qed
qed

lemma find_container_default:
  "find_container m [] =
     (case filter is_default_container (all_containers m) of [] \<Rightarrow> None | c # _ \<Rightarrow> Some c)"
  by (simp add: find_container_def schema_find_container_def all_containers_def find_default_filter)

subsection \<open>The default container\<close>

text \<open>
  Claim C5: in a model where at most one container across all schemas has the default
  flag, \<open>find_container("")\<close> returns that container when there is one and absence
  otherwise; any container it returns has the default flag set (and is a container of
  the model).
\<close>

theorem find_container_empty_name_default:
  assumes "length (filter is_default_container (all_containers m)) \<le> 1"
  shows "(\<forall>c \<in> set (all_containers m). is_default_container c \<longrightarrow> find_container m [] = Some c)
       \<and> ((\<forall>c \<in> set (all_containers m). \<not> is_default_container c) \<longrightarrow> find_container m [] = None)
       \<and> (\<forall>c. find_container m [] = Some c \<longrightarrow> is_default_container c \<and> c \<in> set (all_containers m))"
proof (cases "filter is_default_container (all_containers m)")
  case Nil
  then have none: "\<forall>c \<in> set (all_containers m). \<not> is_default_container c"
    by (simp add: filter_empty_conv)
  from Nil have "find_container m [] = None"
    by (simp add: find_container_default)
  with none show ?thesis by simp
next
  case (Cons c cs)
  with assms have cs: "cs = []" by simp
  from Cons have found: "find_container m [] = Some c"
    by (simp add: find_container_default)
  have mem: "c \<in> set (filter is_default_container (all_containers m))"
    using Cons by simp
  then have c: "is_default_container c" "c \<in> set (all_containers m)" by simp_all
  have only: "c' = c" if "c' \<in> set (all_containers m)" "is_default_container c'" for c'
  proof -
    from that have "c' \<in> set (filter is_default_container (all_containers m))" by simp
    with Cons cs show ?thesis by simp
  qed
  show ?thesis
  proof (intro conjI ballI impI allI)
    fix c' assume "c' \<in> set (all_containers m)" "is_default_container c'"
    then have "c' = c" by (rule only)
    with found show "find_container m [] = Some c'" by simp
  next
    assume "\<forall>c \<in> set (all_containers m). \<not> is_default_container c"
    with c show "find_container m [] = None" by blast
  next
    fix c' assume "find_container m [] = Some c'"
    with found have "c' = c" by simp
    with c show "is_default_container c'" by simp
  next
    fix c' assume "find_container m [] = Some c'"
    with found have "c' = c" by simp
    with c show "c' \<in> set (all_containers m)" by simp
  qed
qed

lemmas two_schema_defs = two_schema_model_def schema_A_def schema_B_def container_B_C_def container_C_def

theorem find_container_empty_name_default_witness:
  "length (filter is_default_container (all_containers two_schema_model)) \<le> 1
   \<and> container_C \<in> set (all_containers two_schema_model)
   \<and> is_default_container container_C
   \<and> find_container two_schema_model [] = Some container_C"
proof -
  have h: "length (filter is_default_container (all_containers two_schema_model)) \<le> 1"
    by (simp add: all_containers_def two_schema_defs)
  have mem: "container_C \<in> set (all_containers two_schema_model)"
    by (simp add: all_containers_def two_schema_model_def schema_A_def schema_B_def)
  have dflt: "is_default_container container_C"
    by (simp add: container_C_def)
  from find_container_empty_name_default [OF h] mem dflt
  have "find_container two_schema_model [] = Some container_C" by blast
  with h mem dflt show ?thesis by simp
qed

subsection \<open>Lookup by name\<close>

lemma find_container_no_own_name:
  assumes "name \<noteq> []" and "\<forall>c \<in> set (all_containers m). get_name c \<noteq> name"
  shows "find_container m name = None"
proof -
  have "schema_find_container sc name = None" if sc: "sc \<in> set (m_schemata m)" for sc
  proof -
    have "get_name (snd ent) \<noteq> name" if "ent \<in> set (m_entity_containers sc)" for ent
    proof -
      from that sc have "snd ent \<in> set (all_containers m)"
        by (auto simp: all_containers_def)
      with assms(2) show ?thesis by blast
    qed
    with assms(1) show ?thesis
      by (simp add: schema_find_container_def first_container_named_None_iff)
  qed
  then show ?thesis
    by (simp add: find_container_def first_found_None_iff)
qed

lemma first_entry_None_iff:
  "first_entry accept ents = None \<longleftrightarrow> (\<forall>ent \<in> set ents. \<not> accept (fst ent))"
  by (induction ents) simp_all

lemma spec_lookup_qualified_found:
  assumes "sc \<in> set schemata" and "ent \<in> set (table_of sc)"
  shows "spec_lookup ns_of alias_of table_of schemata (ns_of sc @ ''.'' @ fst ent) \<noteq> None"
proof -
  let ?name = "ns_of sc @ ''.'' @ fst ent"
  let ?look = "\<lambda>sc'. first_entry (\<lambda>k. qualified_match (ns_of sc') (alias_of sc') k ?name) (table_of sc')"
  from assms(2) have "?look sc \<noteq> None"
    by (auto simp: first_entry_None_iff qualified_match_def)
  with assms(1) have "first_found ?look schemata \<noteq> None"
    by (auto simp: first_found_None_iff)
  then obtain d where "first_found ?look schemata = Some d"
    by blast
  then show ?thesis
    by (simp add: spec_lookup_def)
qed

text \<open>
  Claim C6: every lookup, the container lookup among them, first attempts an exact
  qualified match of the name against \<open>schema_name.local_name\<close>. The container lookup of
  a schema compares the name with the container's own name only, although the header
  documents its parameter as the qualified or unqualified name of the container. So in
  every model whose container names are plain (no namespace separator in them), the
  qualified name \<open>schema_name.container_name\<close> of a container of the model is resolved to
  nothing by the code, where the lookup the spec describes finds a container. On the
  model of the schemas \<open>M\<close> and \<open>B\<close>, \<open>find_container("B.C")\<close> is null although the schema
  \<open>B\<close> has the container \<open>C\<close>, which the unqualified name \<open>C\<close> does find.
\<close>

theorem qualified_container_name_unresolved:
  assumes "\<forall>c \<in> set (all_containers m). CHR ''.'' \<notin> set (get_name c)"
    and "sc \<in> set (m_schemata m)" and "ent \<in> set (m_entity_containers sc)"
  shows "find_container m (m_namespace sc @ ''.'' @ get_name (snd ent)) = None
       \<and> spec_lookup m_namespace m_alias containers_by_name (m_schemata m)
            (m_namespace sc @ ''.'' @ get_name (snd ent)) \<noteq> None"
proof
  let ?name = "m_namespace sc @ ''.'' @ get_name (snd ent)"
  have dot: "CHR ''.'' \<in> set ?name" by simp
  then have "?name \<noteq> []" by auto
  moreover have "\<forall>c \<in> set (all_containers m). get_name c \<noteq> ?name"
    using assms(1) dot by metis
  ultimately show "find_container m ?name = None"
    by (rule find_container_no_own_name)
next
  from assms(3) have "(get_name (snd ent), snd ent) \<in> set (containers_by_name sc)"
    by (auto simp: containers_by_name_def)
  with assms(2) have "spec_lookup m_namespace m_alias containers_by_name (m_schemata m)
      (m_namespace sc @ ''.'' @ fst (get_name (snd ent), snd ent)) \<noteq> None"
    by (rule spec_lookup_qualified_found [where table_of = containers_by_name])
  then show "spec_lookup m_namespace m_alias containers_by_name (m_schemata m)
      (m_namespace sc @ ''.'' @ get_name (snd ent)) \<noteq> None"
    by simp
qed

theorem qualified_container_name_unresolved_witness:
  "find_container plain_model ''B.C'' = None
   \<and> spec_lookup m_namespace m_alias containers_by_name (m_schemata plain_model) ''B.C'' = Some container_C
   \<and> find_container plain_model ''C'' = Some container_C"
proof -
  have plain: "\<forall>c \<in> set (all_containers plain_model). CHR ''.'' \<notin> set (get_name c)"
    by (simp add: all_containers_def plain_model_def schema_M_def schema_B_def container_Main_def
        container_C_def)
  have sc: "schema_B \<in> set (m_schemata plain_model)"
    by (simp add: plain_model_def)
  have ent: "(''C'', container_C) \<in> set (m_entity_containers schema_B)"
    by (simp add: schema_B_def)
  from qualified_container_name_unresolved [OF plain sc ent]
  have code: "find_container plain_model ''B.C'' = None"
    by (simp add: schema_B_def container_C_def)
  have spec: "spec_lookup m_namespace m_alias containers_by_name (m_schemata plain_model) ''B.C'' = Some container_C"
    by (simp add: spec_lookup_def containers_by_name_def qualified_match_def plain_model_def
        schema_M_def schema_B_def container_Main_def container_C_def)
  have unq: "find_container plain_model ''C'' = Some container_C"
    by (simp add: find_container_def schema_find_container_def plain_model_def
        schema_M_def schema_B_def container_Main_def container_C_def)
  from code spec unq show ?thesis by simp
qed

text \<open>
  Claim C7: for a name that no schema's lookup matches, each of the five lookups returns
  absence. For a container this is: no container of the model has that name or, for the
  empty name, no container is flagged default. The lookups are \<open>const\<close> member functions
  that return a pointer; in the model they are functions of the model and the name into
  an \<open>option\<close>, so there is no fault to signal and no new model to return.
\<close>

theorem lookup_miss_is_absence:
  "((\<forall>sc \<in> set (m_schemata m). sf_et sc name = None) \<longrightarrow> find_entity_type sf_et m name = None)
   \<and> ((\<forall>sc \<in> set (m_schemata m). sf_ct sc name = None) \<longrightarrow> find_complex_type sf_ct m name = None)
   \<and> ((\<forall>sc \<in> set (m_schemata m). sf_en sc name = None) \<longrightarrow> find_enum_type sf_en m name = None)
   \<and> ((\<forall>sc \<in> set (m_schemata m). sf_op sc name = None) \<longrightarrow> find_operation_type sf_op m name = None)
   \<and> ((\<forall>c \<in> set (all_containers m). if name = [] then \<not> is_default_container c else get_name c \<noteq> name)
        \<longrightarrow> find_container m name = None)"
proof -
  have cont: "find_container m name = None"
    if h: "\<forall>c \<in> set (all_containers m). if name = [] then \<not> is_default_container c else get_name c \<noteq> name"
  proof -
    have "schema_find_container sc name = None" if sc: "sc \<in> set (m_schemata m)" for sc
    proof -
      have sub: "snd ent \<in> set (all_containers m)" if "ent \<in> set (m_entity_containers sc)" for ent
        using that sc by (auto simp: all_containers_def)
      show ?thesis
      proof (cases "name = []")
        case True
        with h sub have "\<forall>ent \<in> set (m_entity_containers sc). \<not> is_default_container (snd ent)"
          by auto
        with True show ?thesis
          by (simp add: schema_find_container_def first_default_container_None_iff)
      next
        case False
        with h sub have "\<forall>ent \<in> set (m_entity_containers sc). get_name (snd ent) \<noteq> name"
          by auto
        with False show ?thesis
          by (simp add: schema_find_container_def first_container_named_None_iff)
      qed
    qed
    then show ?thesis
      by (simp add: find_container_def first_found_None_iff)
  qed
  have types: "(\<forall>sc \<in> set (m_schemata m). sf_et sc name = None) \<longrightarrow> find_entity_type sf_et m name = None"
    "(\<forall>sc \<in> set (m_schemata m). sf_ct sc name = None) \<longrightarrow> find_complex_type sf_ct m name = None"
    "(\<forall>sc \<in> set (m_schemata m). sf_en sc name = None) \<longrightarrow> find_enum_type sf_en m name = None"
    "(\<forall>sc \<in> set (m_schemata m). sf_op sc name = None) \<longrightarrow> find_operation_type sf_op m name = None"
    by (simp_all add: find_entity_type_def find_complex_type_def find_enum_type_def
        find_operation_type_def first_found_None_iff)
  from cont have "(\<forall>c \<in> set (all_containers m). if name = [] then \<not> is_default_container c else get_name c \<noteq> name)
      \<longrightarrow> find_container m name = None"
    by (rule impI)
  with types show ?thesis
    by (intro conjI)
qed

theorem lookup_miss_is_absence_witness:
  "local_entity_type schema_A ''Order'' = None
   \<and> local_entity_type schema_B ''Order'' = None
   \<and> find_entity_type local_entity_type two_schema_model ''Order'' = None
   \<and> find_complex_type local_complex_type two_schema_model ''Order'' = None
   \<and> find_enum_type local_enum_type two_schema_model ''Order'' = None
   \<and> find_operation_type local_operation_type two_schema_model ''Order'' = None
   \<and> find_container two_schema_model ''Order'' = None"
proof -
  have e: "\<forall>sc \<in> set (m_schemata two_schema_model). local_entity_type sc ''Order'' = None"
    by (simp add: local_entity_type_def two_schema_defs)
  have c: "\<forall>sc \<in> set (m_schemata two_schema_model). local_complex_type sc ''Order'' = None"
    by (simp add: local_complex_type_def two_schema_defs)
  have n: "\<forall>sc \<in> set (m_schemata two_schema_model). local_enum_type sc ''Order'' = None"
    by (simp add: local_enum_type_def two_schema_defs)
  have p: "\<forall>sc \<in> set (m_schemata two_schema_model). local_operation_type sc ''Order'' = None"
    by (simp add: local_operation_type_def two_schema_defs)
  have k: "\<forall>c \<in> set (all_containers two_schema_model).
             if ''Order'' = [] then \<not> is_default_container c else get_name c \<noteq> ''Order''"
    by (simp add: all_containers_def two_schema_defs)
  from lookup_miss_is_absence [of two_schema_model local_entity_type "''Order''" local_complex_type
      local_enum_type local_operation_type] e c n p k
  have "find_entity_type local_entity_type two_schema_model ''Order'' = None
      \<and> find_complex_type local_complex_type two_schema_model ''Order'' = None
      \<and> find_enum_type local_enum_type two_schema_model ''Order'' = None
      \<and> find_operation_type local_operation_type two_schema_model ''Order'' = None
      \<and> find_container two_schema_model ''Order'' = None"
    by blast
  moreover have "local_entity_type schema_A ''Order'' = None \<and> local_entity_type schema_B ''Order'' = None"
    using e by (simp add: two_schema_model_def)
  ultimately show ?thesis by simp
qed

section \<open>Properties of split_string\<close>

lemma occurs_in_iff: "occurs_in delim s \<longleftrightarrow> (\<exists>xs ys. s = xs @ delim @ ys)"
proof (induction s)
  case Nil
  show ?case by auto
next
  case (Cons c cs)
  show ?case
  proof
    assume "occurs_in delim (c # cs)"
    then consider "take (length delim) (c # cs) = delim" | "occurs_in delim cs" by auto
    then show "\<exists>xs ys. c # cs = xs @ delim @ ys"
    proof cases
      case 1
      then have "c # cs = [] @ delim @ drop (length delim) (c # cs)"
        by (metis append_Nil append_take_drop_id)
      then show ?thesis by blast
    next
      case 2
      with Cons obtain xs ys where "cs = xs @ delim @ ys" by blast
      then have "c # cs = (c # xs) @ delim @ ys" by simp
      then show ?thesis by blast
    qed
  next
    assume "\<exists>xs ys. c # cs = xs @ delim @ ys"
    then obtain xs ys where eq: "c # cs = xs @ delim @ ys" by blast
    show "occurs_in delim (c # cs)"
    proof (cases xs)
      case Nil
      with eq have "take (length delim) (c # cs) = delim" by simp
      then show ?thesis by simp
    next
      case (Cons x xs')
      with eq have "cs = xs' @ delim @ ys" by simp
      with Cons.IH have "occurs_in delim cs" by blast
      then show ?thesis by simp
    qed
  qed
qed

lemma longer_delim_not_occurs: "length s < length delim \<Longrightarrow> \<not> occurs_in delim s"
  by (auto simp: occurs_in_iff)

lemma split_from_no_occurrence: "\<not> occurs_in delim rest \<Longrightarrow> split_from delim seg rest = [seg @ rest]"
  by (induction rest arbitrary: seg) auto

lemma take_prefix_only: "n \<le> length xs \<Longrightarrow> take n (xs @ ys) = take n xs"
  by simp

lemma split_from_first_occurrence:
  assumes "delim \<noteq> []" and "\<not> occurs_in delim (a @ butlast delim)"
  shows "split_from delim seg (a @ delim @ r) = (seg @ a) # split_from delim [] r"
  using assms(2)
proof (induction a arbitrary: seg)
  case Nil
  from assms(1) obtain c cs where d: "delim = c # cs" by (cases delim) auto
  have "split_from delim seg (delim @ r) = seg # split_from delim [] (drop (length delim) (delim @ r))"
    unfolding d by simp
  then show ?case by simp
next
  case (Cons x a)
  from Cons.prems have no: "take (length delim) ((x # a) @ butlast delim) \<noteq> delim"
    and rest: "\<not> occurs_in delim (a @ butlast delim)"
    by auto
  have len: "length delim \<le> length ((x # a) @ butlast delim)"
    by simp
  have "take (length delim) (((x # a) @ butlast delim) @ [last delim] @ r)
      = take (length delim) ((x # a) @ butlast delim)"
    using len by (rule take_prefix_only)
  moreover have "(x # a) @ delim @ r = ((x # a) @ butlast delim) @ [last delim] @ r"
    using assms(1) by simp
  ultimately have "take (length delim) ((x # a) @ delim @ r) = take (length delim) ((x # a) @ butlast delim)"
    by (simp only:)
  with no have "take (length delim) (x # a @ delim @ r) \<noteq> delim" by simp
  then have "split_from delim seg (x # a @ delim @ r) = split_from delim (seg @ [x]) (a @ delim @ r)"
    by simp
  with Cons.IH [OF rest, of "seg @ [x]"] show ?case by simp
qed

lemma split_examples:
  "split_string ''...adf..ad....fa..dfdas...'' ''..'' = ['''', ''.adf'', ''ad'', '''', ''fa'', ''dfdas'', ''.'']"
  "split_string ''..adf..ad..fa..dfdas..'' ''..'' = ['''', ''adf'', ''ad'', ''fa'', ''dfdas'', '''']"
  by (simp_all add: split_string_def)

text \<open>The expectations of the tests in common_utility_test.cpp.\<close>

lemma split_string_tests:
  "length (split_string '''' '''') = 1"
  "length (split_string ''23123.23232.32323'' ''.'') = 3"
  "length (split_string '''' ''..'') = 1"
  "length (split_string ''adfadfadfdas'' '''') = 1"
  "length (split_string ''adfadfadfdas'' ''..'') = 1"
  "length (split_string ''..adf..ad..fa..dfdas..'' ''..'') = 6"
  "length (split_string ''...adf..ad....fa..dfdas...'' ''..'') = 7"
  "length (split_string ''...adf..ad....fa..dfdas...f'' ''f'') = 5"
  "length (split_string ''...adf..ad....fa..dfdas...f'' ''...adf..ad....fa..dfdas...f'') = 2"
  "split_string ''...adf..ad....fa..dfdas...f'' ''...adf..ad....fa..dfdas...fdfdfdfdf'' = [''...adf..ad....fa..dfdas...f'']"
  by (simp_all add: split_string_def)

text \<open>
  Claim C9: \<open>split_string\<close> splits on every non-overlapping occurrence of the
  delimiter: where the first occurrence of the delimiter in \<open>a @ delim @ r\<close> is the one
  after \<open>a\<close> (no occurrence starts inside \<open>a\<close>, that is, none lies in \<open>a\<close> followed by
  all but the last character of the delimiter), the result is \<open>a\<close> followed by the split
  of \<open>r\<close>, what comes after the whole delimiter. So
  \<open>...adf..ad....fa..dfdas...\<close> split on \<open>..\<close> has 7 elements and
  \<open>..adf..ad..fa..dfdas..\<close> has 6; a delimiter at the start gives an empty first
  segment and a delimiter at the end an empty last one; and the result is the single
  element \<open>s\<close> when the delimiter is empty, \<open>s\<close> is empty, the delimiter does not occur
  in \<open>s\<close> or the delimiter is longer than \<open>s\<close>.
\<close>

theorem split_string_spec:
  "length (split_string ''...adf..ad....fa..dfdas...'' ''..'') = 7
   \<and> length (split_string ''..adf..ad..fa..dfdas..'' ''..'') = 6
   \<and> (delim \<noteq> [] \<and> \<not> occurs_in delim (a @ butlast delim)
        \<longrightarrow> split_string (a @ delim @ r) delim = a # split_string r delim)
   \<and> (delim \<noteq> [] \<longrightarrow> split_string (delim @ r) delim = [] # split_string r delim)
   \<and> (delim \<noteq> [] \<and> \<not> occurs_in delim (a @ butlast delim) \<longrightarrow> split_string (a @ delim) delim = [a, []])
   \<and> (delim = [] \<or> s = [] \<or> \<not> occurs_in delim s \<or> length s < length delim
        \<longrightarrow> split_string s delim = [s])"
proof -
  have ex: "length (split_string ''...adf..ad....fa..dfdas...'' ''..'') = 7"
    "length (split_string ''..adf..ad..fa..dfdas..'' ''..'') = 6"
    by (simp_all add: split_examples)
  have tail: "split_from delim [] r = split_string r delim" if "delim \<noteq> []" for r
    using that by (cases r) (simp_all add: split_string_def)
  have step: "split_string (a @ delim @ r) delim = a # split_string r delim"
    if "delim \<noteq> []" "\<not> occurs_in delim (a @ butlast delim)" for a r
  proof -
    from that(1) have "split_string (a @ delim @ r) delim = split_from delim [] (a @ delim @ r)"
      by (simp add: split_string_def)
    also have "\<dots> = ([] @ a) # split_from delim [] r"
      using that by (rule split_from_first_occurrence)
    finally show ?thesis using tail [OF that(1)] by simp
  qed
  have butlast_free: "\<not> occurs_in delim ([] @ butlast delim)" if "delim \<noteq> []"
    using that by (intro longer_delim_not_occurs) (simp add: less_eq_Suc_le [symmetric])
  have lead: "split_string (delim @ r) delim = [] # split_string r delim" if "delim \<noteq> []"
    using step [OF that butlast_free [OF that], of r] by simp
  have trail: "split_string (a @ delim) delim = [a, []]"
    if "delim \<noteq> []" "\<not> occurs_in delim (a @ butlast delim)"
    using step [OF that, of "[]"] by (simp add: split_string_def)
  have single: "split_string s delim = [s]"
    if "delim = [] \<or> s = [] \<or> \<not> occurs_in delim s \<or> length s < length delim"
  proof -
    from that consider "delim = [] \<or> s = []" | "\<not> occurs_in delim s"
      using longer_delim_not_occurs by blast
    then show ?thesis
    proof cases
      case 1
      then show ?thesis by (simp add: split_string_def)
    next
      case 2
      then show ?thesis by (simp add: split_string_def split_from_no_occurrence)
    qed
  qed
  have c3: "delim \<noteq> [] \<and> \<not> occurs_in delim (a @ butlast delim)
      \<longrightarrow> split_string (a @ delim @ r) delim = a # split_string r delim"
    using step by blast
  have c4: "delim \<noteq> [] \<longrightarrow> split_string (delim @ r) delim = [] # split_string r delim"
    using lead by blast
  have c5: "delim \<noteq> [] \<and> \<not> occurs_in delim (a @ butlast delim) \<longrightarrow> split_string (a @ delim) delim = [a, []]"
    using trail by blast
  have c6: "delim = [] \<or> s = [] \<or> \<not> occurs_in delim s \<or> length s < length delim
      \<longrightarrow> split_string s delim = [s]"
    using single by blast
  from ex c3 c4 c5 c6 show ?thesis
    by (intro conjI)
qed

theorem split_string_spec_witness:
  "\<not> occurs_in ''..'' (''.adf'' @ butlast ''..'')
   \<and> split_string (''.adf'' @ ''..'' @ ''ad'') ''..'' = [''.adf'', ''ad'']
   \<and> split_string (''..'' @ ''x'') ''..'' = ['''', ''x'']
   \<and> split_string (''x'' @ ''..'') ''..'' = [''x'', '''']
   \<and> split_string ''x'' '''' = [''x'']
   \<and> split_string '''' ''..'' = ['''']
   \<and> split_string ''adfadfadfdas'' ''..'' = [''adfadfadfdas'']
   \<and> split_string ''x'' ''..'' = [''x'']"
proof -
  have d: "''..'' \<noteq> []" by simp
  have n1: "\<not> occurs_in ''..'' (''.adf'' @ butlast ''..'')" by simp
  have n2: "\<not> occurs_in ''..'' (''x'' @ butlast ''..'')" by simp
  have n3: "\<not> occurs_in ''..'' ''adfadfadfdas''" by simp
  have n4: "length ''x'' < length ''..''" by simp
  have t: "split_string ''ad'' ''..'' = [''ad'']" "split_string ''x'' ''..'' = [''x'']"
    by (simp_all add: split_string_def)
  from split_string_spec [of "''..''" "''.adf''" "''ad''" "''x''"] d n1 t
  have w1: "split_string (''.adf'' @ ''..'' @ ''ad'') ''..'' = [''.adf'', ''ad'']" by simp
  from split_string_spec [of "''..''" "''x''" "''x''" "''x''"] d n2 n4 t
  have w2: "split_string (''..'' @ ''x'') ''..'' = ['''', ''x'']"
    "split_string (''x'' @ ''..'') ''..'' = [''x'', '''']"
    "split_string ''x'' ''..'' = [''x'']"
    by simp_all
  from split_string_spec [of "''''" "''''" "''''" "''x''"]
  have w3: "split_string ''x'' '''' = [''x'']" by simp
  from split_string_spec [of "''..''" "''''" "''''" "''''"]
  have w4: "split_string '''' ''..'' = ['''']" by simp
  from split_string_spec [of "''..''" "''''" "''''" "''adfadfadfdas''"] n3
  have w5: "split_string ''adfadfadfdas'' ''..'' = [''adfadfadfdas'']" by simp
  from n1 w1 w2 w3 w4 w5 show ?thesis by simp
qed

end
